theory Spec2Isabelle
  imports Main "HOL-Library.Char_ord" "HOL-Library.List_Lexorder" "HOL-Library.Sublist"
    "HOL-Library.AList"
begin

section \<open>Text primitives of the Python runtime\<close>

text \<open>
  A Python \<open>str\<close> is modelled as a \<open>string\<close>: a list of characters, each one a code
  point below 256. The functions of this section are the library operations that
  \<open>scripts/generate_index.py\<close> calls on strings.
\<close>

definition nl :: char where
  "nl = CHR 0x0A"

text \<open>
  \<open>str.isspace\<close> on one character, which is also the class \<open>\s\<close> of \<open>re\<close> on a \<open>str\<close>
  pattern: tab, line feed, vertical tab, form feed, carriage return, the separators
  0x1C to 0x1F, the space, NEL (0x85) and the no-break space (0xA0).
\<close>

definition is_space :: "char \<Rightarrow> bool" where
  "is_space c = (of_char c \<in> {9::nat, 10, 11, 12, 13, 28, 29, 30, 31, 32, 133, 160})"

text \<open>\<open>str.strip()\<close> without argument: leading and trailing whitespace removed.\<close>

definition strip :: "string \<Rightarrow> string" where
  "strip s = rev (dropWhile is_space (rev (dropWhile is_space s)))"

text \<open>\<open>s.startswith(c)\<close> for a one-character prefix.\<close>

definition startswith :: "string \<Rightarrow> char \<Rightarrow> bool" where
  "startswith s c = (case s of [] \<Rightarrow> False | x # _ \<Rightarrow> x = c)"

text \<open>\<open>content.split("\n")\<close>: never empty, one more piece than there are line feeds.\<close>

fun split_nl :: "string \<Rightarrow> string list" where
  "split_nl [] = [[]]"
| "split_nl (c # cs) =
     (if c = nl then [] # split_nl cs
      else (case split_nl cs of [] \<Rightarrow> [[c]] | l # ls \<Rightarrow> (c # l) # ls))"

text \<open>\<open>sep.join(parts)\<close>.\<close>

fun join :: "string \<Rightarrow> string list \<Rightarrow> string" where
  "join sep [] = []"
| "join sep [p] = p"
| "join sep (p # q # ps) = p @ sep @ join sep (q # ps)"

section \<open>The regular expression of the title\<close>

text \<open>
  \<open>re.search(r"^#\s+(.+)$", content, re.MULTILINE)\<close>, written out as the backtracking
  search that \<open>re\<close> performs. The result is group 1 of the leftmost match.

  \<open>(.+)$\<close> at the head of \<open>s\<close>: the dot takes every character but the line feed, greedily,
  and needs at least one; after the longest run the next character is a line feed or the
  end of the text, where \<open>$\<close> holds in multi-line mode. A shorter run is followed by a
  character of the run, where \<open>$\<close> fails, so the longest run is the only candidate.
\<close>

definition dot_plus_eol :: "string \<Rightarrow> string option" where
  "dot_plus_eol s =
     (let g = takeWhile (\<lambda>c. c \<noteq> nl) s in if g = [] then None else Some g)"

text \<open>
  \<open>\s+\<close> followed by \<open>(.+)$\<close> on the text \<open>t\<close> after the hash: the whitespace run is
  tried at its longest first (\<open>j\<close> characters) and gives back one character at a time,
  down to one. The class \<open>\s\<close> contains the line feed, so the run may cross lines.
\<close>

fun spaces_then_group :: "nat \<Rightarrow> string \<Rightarrow> string option" where
  "spaces_then_group 0 t = None"
| "spaces_then_group (Suc j) t =
     (case dot_plus_eol (drop (Suc j) t) of
        Some g \<Rightarrow> Some g
      | None \<Rightarrow> spaces_then_group j t)"

text \<open>The pattern after \<open>^\<close>, tried at the head of \<open>s\<close>: exactly one hash, then the rest.\<close>

definition match_here :: "string \<Rightarrow> string option" where
  "match_here s =
     (case s of
        [] \<Rightarrow> None
      | c # t \<Rightarrow>
          if c = CHR ''#'' then spaces_then_group (length (takeWhile is_space t)) t
          else None)"

text \<open>
  The search tries every position from the left. \<open>bol\<close> says whether \<open>^\<close> holds at the
  current position: at the start of the text and after each line feed.
\<close>

fun search_from :: "bool \<Rightarrow> string \<Rightarrow> string option" where
  "search_from bol [] = None"
| "search_from bol (c # cs) =
     (case (if bol then match_here (c # cs) else None) of
        Some g \<Rightarrow> Some g
      | None \<Rightarrow> search_from (c = nl) cs)"

definition title_match :: "string \<Rightarrow> string option" where
  "title_match content = search_from True content"

section \<open>The metadata extractor\<close>

text \<open>
  The loop of \<open>parse_markdown\<close> over the lines, with its two variables
  \<open>in_description\<close> and \<open>description_lines\<close>; a \<open>break\<close> returns the lines collected.
\<close>

fun description_loop :: "bool \<Rightarrow> string list \<Rightarrow> string list \<Rightarrow> string list" where
  "description_loop in_description description_lines [] = description_lines"
| "description_loop in_description description_lines (line # rest) =
     (let stripped = strip line in
      if startswith stripped CHR ''#'' then
        (if in_description then description_lines
         else description_loop True description_lines rest)
      else if in_description \<and> stripped \<noteq> [] then
        description_loop in_description (description_lines @ [stripped]) rest
      else if in_description \<and> stripped = [] \<and> description_lines \<noteq> [] then
        description_lines
      else description_loop in_description description_lines rest)"

text \<open>
  \<open>parse_markdown\<close> after the file has been read: \<open>content\<close> is the text and \<open>parent_name\<close>
  is \<open>md_path.parent.name\<close>. The result is the pair of the keys \<open>title\<close> and
  \<open>description\<close> of the dictionary.
\<close>

definition extract_title :: "string \<Rightarrow> string \<Rightarrow> string" where
  "extract_title content parent_name =
     (case title_match content of Some g \<Rightarrow> strip g | None \<Rightarrow> parent_name)"

definition extract_description :: "string \<Rightarrow> string" where
  "extract_description content =
     (let description_lines = description_loop False [] (split_nl content) in
      if description_lines \<noteq> [] then join '' '' description_lines else [])"

definition parse_content :: "string \<Rightarrow> string \<Rightarrow> string \<times> string" where
  "parse_content content parent_name =
     (extract_title content parent_name, extract_description content)"

section \<open>The file system under the content root\<close>

text \<open>
  What the program sees of the file system is the path \<open>site\<close>: absent (\<open>None\<close>), a
  regular file, or a directory with its children by name. A file carries its text as
  \<open>read_text(encoding="utf-8")\<close> decodes it, \<open>None\<close> when its bytes are not valid UTF-8.
  Names are unique in a directory, so a well-formed listing has distinct names.
\<close>

datatype node = File "string option" | Dir "(string \<times> node) list"

datatype error =
  FileNotFoundError | NotADirectoryError | IsADirectoryError | UnicodeDecodeError

record entry =
  folder :: string
  title :: string
  description :: string

fun is_dir :: "node \<Rightarrow> bool" where
  "is_dir (Dir _) = True"
| "is_dir (File _) = False"

text \<open>The children of a directory by name; below a file no path exists.\<close>

fun dir_children :: "node \<Rightarrow> (string \<times> node) list" where
  "dir_children (Dir children) = children"
| "dir_children (File _) = []"

text \<open>\<open>md_path.read_text(encoding="utf-8")\<close>, the first statement of \<open>parse_markdown\<close>.\<close>

fun read_text :: "node \<Rightarrow> error + string" where
  "read_text (Dir _) = Inl IsADirectoryError"
| "read_text (File None) = Inl UnicodeDecodeError"
| "read_text (File (Some content)) = Inr content"

text \<open>
  \<open>parse_markdown(md_path)\<close>: \<open>md\<close> is what the path names and \<open>parent_name\<close> the name of
  the directory it lies in.
\<close>

definition parse_markdown :: "node \<Rightarrow> string \<Rightarrow> error + string \<times> string" where
  "parse_markdown md parent_name =
     (case read_text md of
        Inl e \<Rightarrow> Inl e
      | Inr content \<Rightarrow> Inr (parse_content content parent_name))"

section \<open>The folder scanner\<close>

text \<open>
  The inner loop of \<open>get_subfolders\<close>: the first name of the list for which
  \<open>candidate.exists()\<close> holds, whatever kind of node it names.
\<close>

fun find_md_file :: "(string \<times> node) list \<Rightarrow> string list \<Rightarrow> node option" where
  "find_md_file children [] = None"
| "find_md_file children (md_name # md_names) =
     (case map_of children md_name of
        Some candidate \<Rightarrow> Some candidate
      | None \<Rightarrow> find_md_file children md_names)"

definition md_names :: "string list" where
  "md_names = [''README.md'', ''description.md'', ''index.md'']"

text \<open>
  The outer loop over the sorted children, with the list \<open>entries\<close> built so far. An
  exception of \<open>parse_markdown\<close> leaves the loop and the function.
\<close>

fun scan_items :: "(string \<times> node) list \<Rightarrow> entry list \<Rightarrow> error + entry list" where
  "scan_items [] entries = Inr entries"
| "scan_items ((name, item) # items) entries =
     (if \<not> is_dir item then scan_items items entries
      else if startswith name CHR ''.'' then scan_items items entries
      else
        (case find_md_file (dir_children item) md_names of
           Some md_file \<Rightarrow>
             (case parse_markdown md_file name of
                Inl e \<Rightarrow> Inl e
              | Inr info \<Rightarrow>
                  scan_items items
                    (entries @ [\<lparr>folder = name, title = fst info, description = snd info\<rparr>]))
         | None \<Rightarrow>
             scan_items items
               (entries @ [\<lparr>folder = name, title = name, description = []\<rparr>])))"

text \<open>
  \<open>get_subfolders\<close>. Paths below one directory compare by their names, and \<open>str\<close> compares
  by code points, so \<open>sorted(SITE_DIR.iterdir())\<close> is the listing sorted by name.
  \<open>iterdir\<close> on a path that exists and is no directory raises.
\<close>

definition get_subfolders :: "node option \<Rightarrow> error + entry list" where
  "get_subfolders site =
     (case site of
        None \<Rightarrow> Inr []
      | Some (File _) \<Rightarrow> Inl NotADirectoryError
      | Some (Dir children) \<Rightarrow> scan_items (sort_key fst children) [])"

section \<open>The page renderer\<close>

definition unlines :: "string list \<Rightarrow> string" where
  "unlines ls = concat (map (\<lambda>l. l @ [nl]) ls)"

definition desc_html :: "entry \<Rightarrow> string" where
  \<open>desc_html e =
     (if description e \<noteq> [] then ''<p class="description">'' @ description e @ ''</p>''
      else [])\<close>

text \<open>The text that one round of the loop of \<open>generate_html\<close> appends to \<open>entries_html\<close>.\<close>

definition entry_html :: "entry \<Rightarrow> string" where
  \<open>entry_html e =
     [nl] @ ''        <li class="entry">'' @ [nl]
     @ ''            <a href="'' @ folder e @ ''/index.html">'' @ [nl]
     @ ''                <h2>'' @ title e @ ''</h2>'' @ [nl]
     @ ''                '' @ desc_html e @ [nl]
     @ ''            </a>'' @ [nl]
     @ ''        </li>'' @ [nl]\<close>

fun entries_loop :: "string \<Rightarrow> entry list \<Rightarrow> string" where
  "entries_loop entries_html [] = entries_html"
| "entries_loop entries_html (e # es) = entries_loop (entries_html @ entry_html e) es"

definition page_head_lines :: "string list" where
  \<open>page_head_lines =
     [''<!DOCTYPE html>'',
      ''<html lang="en">'',
      ''<head>'',
      ''    <meta charset="UTF-8">'',
      ''    <meta name="viewport" content="width=device-width, initial-scale=1.0">'',
      ''    <title>Published Content</title>'',
      ''    <style>'',
      ''        :root {'',
      ''            --bg-color: #f5f5f5;'',
      ''            --text-color: #333;'',
      ''            --link-color: #0066cc;'',
      ''            --card-bg: #fff;'',
      ''            --border-color: #ddd;'',
      ''        }'',
      ''        @media (prefers-color-scheme: dark) {'',
      ''            :root {'',
      ''                --bg-color: #1a1a1a;'',
      ''                --text-color: #e0e0e0;'',
      ''                --link-color: #6db3f2;'',
      ''                --card-bg: #2d2d2d;'',
      ''                --border-color: #444;'',
      ''            }'',
      ''        }'',
      ''        * {'',
      ''            box-sizing: border-box;'',
      ''        }'',
      ''        body {'',
      ''            font-family: -apple-system, BlinkMacSystemFont, "Segoe UI", Roboto, Helvetica, Arial, sans-serif;'',
      ''            max-width: 800px;'',
      ''            margin: 0 auto;'',
      ''            padding: 2rem;'',
      ''            background-color: var(--bg-color);'',
      ''            color: var(--text-color);'',
      ''            line-height: 1.6;'',
      ''        }'',
      ''        h1 {'',
      ''            border-bottom: 2px solid var(--border-color);'',
      ''            padding-bottom: 0.5rem;'',
      ''        }'',
      ''        ul {'',
      ''            list-style: none;'',
      ''            padding: 0;'',
      ''        }'',
      ''        .entry {'',
      ''            margin: 1rem 0;'',
      ''            padding: 1rem;'',
      ''            background-color: var(--card-bg);'',
      ''            border: 1px solid var(--border-color);'',
      ''            border-radius: 8px;'',
      ''            transition: box-shadow 0.2s;'',
      ''        }'',
      ''        .entry:hover {'',
      ''            box-shadow: 0 4px 12px rgba(0, 0, 0, 0.15);'',
      ''        }'',
      ''        .entry a {'',
      ''            text-decoration: none;'',
      ''            color: inherit;'',
      ''            display: block;'',
      ''        }'',
      ''        .entry h2 {'',
      ''            margin: 0 0 0.5rem 0;'',
      ''            color: var(--link-color);'',
      ''            font-size: 1.25rem;'',
      ''        }'',
      ''        .description {'',
      ''            margin: 0;'',
      ''            color: var(--text-color);'',
      ''            opacity: 0.8;'',
      ''        }'',
      ''        .empty {'',
      ''            color: var(--text-color);'',
      ''            opacity: 0.6;'',
      ''            font-style: italic;'',
      ''        }'',
      ''    </style>'',
      ''</head>'',
      ''<body>'',
      ''    <h1>Published Content</h1>'',
      ''    <ul>'']\<close>

definition page_tail_lines :: "string list" where
  \<open>page_tail_lines =
     [''    </ul>'',
      ''</body>'',
      ''</html>'']\<close>

definition generate_html :: "entry list \<Rightarrow> string" where
  \<open>generate_html entries =
     (let entries_html = entries_loop [] entries;
          entries_html =
            (if entries = [] then ''<li class="empty">No content yet.</li>''
             else entries_html)
      in unlines page_head_lines @ entries_html @ [nl] @ unlines page_tail_lines)\<close>

section \<open>The run\<close>

text \<open>
  \<open>output_path.write_text(html, encoding="utf-8")\<close> for \<open>site/index.html\<close>: the file is
  created or replaced when \<open>site\<close> is a directory and the name is free or names a file.
\<close>

definition write_index :: "node option \<Rightarrow> string \<Rightarrow> error + node option" where
  "write_index site html =
     (case site of
        None \<Rightarrow> Inl FileNotFoundError
      | Some (File _) \<Rightarrow> Inl NotADirectoryError
      | Some (Dir children) \<Rightarrow>
          (case map_of children ''index.html'' of
             Some (Dir _) \<Rightarrow> Inl IsADirectoryError
           | _ \<Rightarrow> Inr (Some (Dir (AList.update ''index.html'' (File (Some html)) children)))))"

text \<open>\<open>str(n)\<close> for a length.\<close>

fun show_nat :: "nat \<Rightarrow> string" where
  "show_nat n =
     (if n < 10 then [char_of (48 + n)]
      else show_nat (n div 10) @ [char_of (48 + n mod 10)])"

declare show_nat.simps [simp del]

text \<open>
  \<open>main\<close>, from the state of \<open>site\<close> before the run to the outcome (the exception that
  ends the run, or the line printed) and the state of \<open>site\<close> after it.
\<close>

definition main :: "node option \<Rightarrow> (error + string) \<times> node option" where
  "main site =
     (case get_subfolders site of
        Inl e \<Rightarrow> (Inl e, site)
      | Inr entries \<Rightarrow>
          (case write_index site (generate_html entries) of
             Inl e \<Rightarrow> (Inl e, site)
           | Inr site' \<Rightarrow>
               (Inr (''Generated site/index.html with '' @ show_nat (length entries)
                     @ '' entries''), site')))"

section \<open>The specification's reading of the components\<close>

text \<open>The test of the description loop on a line: the trimmed line starts with a hash.\<close>

definition is_heading :: "string \<Rightarrow> bool" where
  "is_heading line = startswith (strip line) CHR ''#''"

text \<open>
  Trimming as the specification words it, written by recursion on the line and without
  \<open>strip\<close>: whitespace is taken off the front, then off the back.
\<close>

fun trim_left :: "string \<Rightarrow> string" where
  "trim_left [] = []"
| "trim_left (c # cs) = (if is_space c then trim_left cs else c # cs)"

fun trim_right :: "string \<Rightarrow> string" where
  "trim_right [] = []"
| "trim_right (c # cs) =
     (if is_space c \<and> trim_right cs = [] then [] else c # trim_right cs)"

definition trimmed :: "string \<Rightarrow> string" where
  "trimmed line = trim_right (trim_left line)"

text \<open>
  The description scan as the specification words it: a machine that reads one line at a
  time, with an in-description flag and a buffer, and a state for "stopped". Every test
  is on the trimmed line, and it is the trimmed line that is buffered.
\<close>

datatype scan_state = Scanning bool "string list" | Stopped "string list"

fun buffer :: "scan_state \<Rightarrow> string list" where
  "buffer (Scanning _ buf) = buf"
| "buffer (Stopped buf) = buf"

fun spec_step :: "scan_state \<Rightarrow> string \<Rightarrow> scan_state" where
  "spec_step (Stopped buf) line = Stopped buf"
| "spec_step (Scanning ind buf) line =
     (if take 1 (trimmed line) = ''#'' then
        (if ind then Stopped buf else Scanning True buf)
      else if ind \<and> trimmed line \<noteq> [] then Scanning ind (buf @ [trimmed line])
      else if ind \<and> trimmed line = [] \<and> buf \<noteq> [] then Stopped buf
      else Scanning ind buf)"

definition spec_description :: "string \<Rightarrow> string" where
  "spec_description content =
     join '' '' (buffer (foldl spec_step (Scanning False []) (split_nl content)))"

text \<open>
  Documents whose lines carry whitespace around their text: the document of the
  specification with padded lines, and a lone heading between blank lines.
\<close>

definition padded_document :: string where
  "padded_document =
     ''  # T  '' @ [nl, nl] @ ''   Line one.  '' @ [nl] @ [CHR 0x09] @ ''Line two.'' @ [nl]
     @ ''   '' @ [nl] @ ''Ignored.''"

definition padded_heading_only :: string where
  "padded_heading_only = ''   '' @ [nl] @ ''  # T  '' @ [nl] @ [CHR 0x09]"

text \<open>A content root whose only folder holds a directory named \<open>README.md\<close>.\<close>

definition site_readme_dir :: "node option" where
  "site_readme_dir =
     Some (Dir [(''proj'', Dir [(''README.md'', Dir []),
                               (''description.md'', File (Some ''# Title''))])])"

text \<open>
  Two shapes of a line, for the title. \<open>hash_space_line\<close>: one hash, then a
  whitespace character or the end of the line. \<open>bare_hash\<close>: one hash and nothing but
  whitespace after it.
\<close>

definition hash_space_line :: "string \<Rightarrow> bool" where
  "hash_space_line l =
     (case l of
        [] \<Rightarrow> False
      | c # r \<Rightarrow> c = CHR ''#'' \<and> (case r of [] \<Rightarrow> True | w # _ \<Rightarrow> is_space w))"

definition bare_hash :: "string \<Rightarrow> bool" where
  "bare_hash l = (case l of [] \<Rightarrow> False | c # r \<Rightarrow> c = CHR ''#'' \<and> list_all is_space r)"

text \<open>
  The title as the specification words it: the first line made of one or more hashes,
  one or more whitespace characters and then text gives the text, trimmed.
\<close>

definition spec_heading_text :: "string \<Rightarrow> string option" where
  "spec_heading_text l =
     (let r = dropWhile (\<lambda>c. c = CHR ''#'') l; t = dropWhile is_space r
      in if r \<noteq> l \<and> t \<noteq> r \<and> t \<noteq> [] then Some t else None)"

definition spec_title :: "string \<Rightarrow> string \<Rightarrow> string" where
  "spec_title content fallback =
     (case List.map_filter spec_heading_text (split_nl content) of
        [] \<Rightarrow> fallback
      | t # _ \<Rightarrow> strip t)"

text \<open>
  A child of the root that the scanner keeps: a directory whose name does not start
  with a dot.
\<close>

definition qualifying :: "string \<times> node \<Rightarrow> bool" where
  "qualifying p = (is_dir (snd p) \<and> \<not> startswith (fst p) CHR ''.'')"

text \<open>
  The summary file as the specification words it: \<open>README.md\<close> when present, else
  \<open>description.md\<close>, else \<open>index.md\<close>.
\<close>

definition selected :: "(string \<times> node) list \<Rightarrow> node option" where
  "selected sub =
     (case map_of sub ''README.md'' of
        Some md \<Rightarrow> Some md
      | None \<Rightarrow>
          (case map_of sub ''description.md'' of
             Some md \<Rightarrow> Some md
           | None \<Rightarrow> map_of sub ''index.md''))"

text \<open>
  The entry of a folder without summary file.
\<close>

definition bare_entry :: "string \<Rightarrow> entry" where
  "bare_entry name = \<lparr>folder = name, title = name, description = []\<rparr>"

text \<open>
  Content roots for the examples: three empty folders listed as b, a, c; a root with
  two folders, a hidden directory and a file; a root with a summary file that does not
  decode.
\<close>

definition site_abc :: "node option" where
  "site_abc = Some (Dir [(''b'', Dir []), (''a'', Dir []), (''c'', Dir [])])"

definition site_mixed :: "node option" where
  "site_mixed =
     Some (Dir [(''notes'', Dir [(''index.md'', File (Some ''# Notes''))]),
                (''.git'', Dir []),
                (''blog'', Dir [(''description.md'', File (Some ''# Blog'')),
                                (''index.md'', File None)]),
                (''index.html'', File (Some ''old''))])"

definition site_undecodable :: "node option" where
  "site_undecodable =
     Some (Dir [(''a'', Dir []), (''b'', Dir [(''README.md'', File None)])])"

text \<open>
  The entry of the renderer example.
\<close>

definition entry_proj1 :: entry where
  "entry_proj1 = \<lparr>folder = ''proj1'', title = ''Proj One'', description = ''A demo.''\<rparr>"

section \<open>Properties\<close>

subsection \<open>The description scan\<close>

lemma foldl_stopped: "foldl spec_step (Stopped buf) ls = Stopped buf"
  by (induction ls) simp_all

lemma trim_left_dropWhile: "trim_left s = dropWhile is_space s"
  by (induction s) simp_all

lemma trim_right_empty: "trim_right s = [] \<longleftrightarrow> (\<forall>c\<in>set s. is_space c)"
  by (induction s) auto

lemma trim_right_dropWhile: "trim_right s = rev (dropWhile is_space (rev s))"
proof (induction s)
  case Nil
  show ?case by simp
next
  case (Cons c cs)
  show ?case
  proof (cases "\<forall>x\<in>set cs. is_space x")
    case True
    then have "trim_right cs = []" by (simp add: trim_right_empty)
    moreover have "dropWhile is_space (rev cs @ [c]) = dropWhile is_space [c]"
      using True by (simp add: dropWhile_append)
    ultimately show ?thesis by simp
  next
    case False
    then have "trim_right cs \<noteq> []" by (simp add: trim_right_empty)
    moreover have "dropWhile is_space (rev cs @ [c]) = dropWhile is_space (rev cs) @ [c]"
      using False by (simp add: dropWhile_append)
    ultimately show ?thesis using Cons.IH by simp
  qed
qed

lemma trimmed_strip: "trimmed line = strip line"
  by (simp add: trimmed_def strip_def trim_left_dropWhile trim_right_dropWhile)

lemma take_one_hash: "(take (Suc 0) s = ''#'') = startswith s CHR ''#''"
  by (cases s) (simp_all add: startswith_def)

lemma loop_is_machine:
  "description_loop ind acc ls = buffer (foldl spec_step (Scanning ind acc) ls)"
  by (induction ls arbitrary: ind acc)
    (simp_all add: Let_def foldl_stopped trimmed_strip take_one_hash)

lemma join_nil_iff: "(if ls \<noteq> [] then join sep ls else []) = join sep ls"
  by (cases ls) simp_all

lemma blank_not_heading: "strip l = [] \<Longrightarrow> \<not> is_heading l"
  by (simp add: is_heading_def startswith_def)

lemma loop_skip_before:
  "\<forall>l\<in>set pre. \<not> is_heading l \<Longrightarrow>
     description_loop False acc (pre @ xs) = description_loop False acc xs"
  by (induction pre) (simp_all add: is_heading_def Let_def)

lemma loop_stop_at_heading:
  "is_heading h \<Longrightarrow>
     description_loop True acc (mid @ h # rest) = description_loop True acc mid"
  by (induction mid arbitrary: acc) (simp_all add: is_heading_def Let_def)

lemma loop_blank_only:
  "\<forall>l\<in>set mid. strip l = [] \<Longrightarrow> description_loop True [] mid = []"
  by (induction mid) (simp_all add: startswith_def Let_def)

lemma loop_blank_before:
  "\<forall>l\<in>set pre. strip l = [] \<Longrightarrow>
     description_loop False acc (pre @ xs) = description_loop False acc xs"
  by (rule loop_skip_before) (simp add: blank_not_heading)

text \<open>
  Claim C2. The description that the extractor returns is the one of the specified state
  machine: the first line whose trimmed text starts with a hash sets the flag, later
  non-empty trimmed lines are buffered, a blank line after buffered text stops the scan,
  a further heading stops it, and the buffer is joined with single spaces. The document
  of the specification yields "Line one. Line two.", and so does the same document with
  whitespace around every line, the heading included; a document of one heading among
  blank lines yields the empty description.
\<close>

theorem description_state_machine:
  "extract_description content = spec_description content
   \<and> extract_description
        (''# T'' @ [nl, nl] @ ''Line one.'' @ [nl] @ ''Line two.'' @ [nl, nl] @ ''Ignored.'')
      = ''Line one. Line two.''
   \<and> extract_description padded_document = ''Line one. Line two.''
   \<and> (split_nl content = pre @ h # post \<and> take 1 (trimmed h) = ''#''
        \<and> (\<forall>l\<in>set pre. trimmed l = []) \<and> (\<forall>l\<in>set post. trimmed l = [])
      \<longrightarrow> extract_description content = [])"
proof (intro conjI impI)
  show "extract_description content = spec_description content"
    by (simp add: extract_description_def spec_description_def Let_def join_nil_iff
        loop_is_machine)
next
  show "extract_description
        (''# T'' @ [nl, nl] @ ''Line one.'' @ [nl] @ ''Line two.'' @ [nl, nl] @ ''Ignored.'')
      = ''Line one. Line two.''"
    by (simp add: extract_description_def nl_def strip_def is_space_def startswith_def)
next
  show "extract_description padded_document = ''Line one. Line two.''"
    by (simp add: padded_document_def extract_description_def nl_def strip_def is_space_def
        startswith_def)
next
  assume "split_nl content = pre @ h # post \<and> take 1 (trimmed h) = ''#''
        \<and> (\<forall>l\<in>set pre. trimmed l = []) \<and> (\<forall>l\<in>set post. trimmed l = [])"
  then have a: "split_nl content = pre @ h # post \<and> is_heading h
        \<and> (\<forall>l\<in>set pre. strip l = []) \<and> (\<forall>l\<in>set post. strip l = [])"
    by (simp add: trimmed_strip take_one_hash is_heading_def)
  then have "description_loop False [] (split_nl content) = description_loop False [] (h # post)"
    by (simp add: loop_blank_before)
  also have "\<dots> = description_loop True [] post"
    using a by (simp add: is_heading_def)
  also have "\<dots> = []"
    using a by (simp add: loop_blank_only)
  finally show "extract_description content = []"
    by (simp add: extract_description_def)
qed

text \<open>
  The theorem of C2 at a heading with whitespace around it, between a line of spaces and
  a line of one tab.
\<close>

theorem description_state_machine_witness:
  "split_nl padded_heading_only = [''   ''] @ ''  # T  '' # [[CHR 0x09]]
   \<and> trimmed ''  # T  '' = ''# T''
   \<and> trimmed ''   '' = [] \<and> trimmed [CHR 0x09] = []
   \<and> extract_description padded_heading_only = spec_description padded_heading_only
   \<and> extract_description padded_heading_only = []"
proof -
  have s: "split_nl padded_heading_only = [''   ''] @ ''  # T  '' # [[CHR 0x09]]"
    by (simp add: padded_heading_only_def nl_def)
  have t: "trimmed ''  # T  '' = ''# T''" "trimmed ''   '' = []" "trimmed [CHR 0x09] = []"
    by (simp_all add: trimmed_def is_space_def)
  have h: "split_nl padded_heading_only = [''   ''] @ ''  # T  '' # [[CHR 0x09]]
        \<and> take 1 (trimmed ''  # T  '') = ''#''
        \<and> (\<forall>l\<in>set [''   '']. trimmed l = [])
        \<and> (\<forall>l\<in>set [[CHR 0x09]]. trimmed l = [])"
    using s t by simp
  show ?thesis
    using h t
      description_state_machine
        [of padded_heading_only "[''   '']" "''  # T  ''" "[[CHR 0x09]]"]
    by blast
qed

text \<open>
  Claim C3, as stated, at the document with the headings "# A" and "# B", a blank line
  between them and "text" after the second: the scan stops at "# B" and the description
  is empty; the paragraph after the later heading is not captured.
\<close>

theorem later_heading_counterexample:
  "extract_description (''# A'' @ [nl, nl] @ ''# B'' @ [nl] @ ''text'') = []"
  by (simp add: extract_description_def nl_def strip_def is_space_def startswith_def)

text \<open>
  Claim C3, amended. Once a first heading has been seen, a later heading always ends
  the scan: the lines collected are those between the two headings, whatever follows,
  and when only blank lines lie between them the description is empty. The capture is
  never started again.
\<close>

theorem later_heading_stops:
  assumes "split_nl content = pre @ h1 # mid @ h2 # rest"
    and "\<forall>l\<in>set pre. \<not> is_heading l" and "is_heading h1" and "is_heading h2"
  shows "description_loop False [] (split_nl content) = description_loop True [] mid
         \<and> ((\<forall>l\<in>set mid. strip l = []) \<longrightarrow> extract_description content = [])"
proof -
  have "description_loop False [] (split_nl content)
        = description_loop False [] (h1 # mid @ h2 # rest)"
    using assms(1,2) by (simp add: loop_skip_before)
  also have "\<dots> = description_loop True [] (mid @ h2 # rest)"
    using assms(3) by (simp add: is_heading_def)
  also have "\<dots> = description_loop True [] mid"
    using assms(4) by (rule loop_stop_at_heading)
  finally have eq: "description_loop False [] (split_nl content) = description_loop True [] mid" .
  then show ?thesis
    by (simp add: extract_description_def loop_blank_only)
qed

text \<open>
  The theorem of C3 at the document of its counterexample.
\<close>

theorem later_heading_stops_witness:
  "split_nl (''# A'' @ [nl, nl] @ ''# B'' @ [nl] @ ''text'') = [] @ ''# A'' # [[]] @ ''# B'' # [''text'']
   \<and> is_heading ''# A'' \<and> is_heading ''# B''
   \<and> description_loop False [] (split_nl (''# A'' @ [nl, nl] @ ''# B'' @ [nl] @ ''text'')) = description_loop True [] [[]]
   \<and> extract_description (''# A'' @ [nl, nl] @ ''# B'' @ [nl] @ ''text'') = []"
proof -
  have s: "split_nl (''# A'' @ [nl, nl] @ ''# B'' @ [nl] @ ''text'') = [] @ ''# A'' # [[]] @ ''# B'' # [''text'']"
    by (simp add: nl_def)
  have p: "\<forall>l\<in>set ([]::string list). \<not> is_heading l" by simp
  have a: "is_heading ''# A''" and b: "is_heading ''# B''"
    by (simp_all add: is_heading_def strip_def is_space_def startswith_def)
  have m: "\<forall>l\<in>set [[]]. strip l = []" by (simp add: strip_def)
  show ?thesis
    using later_heading_stops [OF s p a b] s a b m by simp
qed

subsection \<open>The title\<close>

lemma split_nl_nonempty: "split_nl s \<noteq> []"
  by (induction s) (simp_all split: list.split)

lemma split_nl_no_nl: "l \<in> set (split_nl s) \<Longrightarrow> nl \<notin> set l"
  by (induction s arbitrary: l) (auto split: if_splits list.splits)

lemma join_split_nl: "join [nl] (split_nl s) = s"
proof (induction s)
  case Nil
  show ?case by simp
next
  case (Cons c cs)
  obtain l ls where sp: "split_nl cs = l # ls"
    using split_nl_nonempty [of cs] by (cases "split_nl cs") auto
  show ?case
  proof (cases "c = nl")
    case True
    with Cons sp show ?thesis by simp
  next
    case False
    with Cons sp show ?thesis by (cases ls) auto
  qed
qed

lemma nl_is_space: "is_space nl"
  by (simp add: is_space_def nl_def)

lemma search_inside_line:
  "nl \<notin> set l \<Longrightarrow> search_from False (l @ nl # rest) = search_from True rest"
  by (induction l) auto

lemma search_inside_last: "nl \<notin> set l \<Longrightarrow> search_from False l = None"
  by (induction l) auto

lemma search_line_start:
  "nl \<notin> set l \<Longrightarrow>
     search_from True (l @ nl # rest) =
       (case match_here (l @ nl # rest) of Some g \<Rightarrow> Some g | None \<Rightarrow> search_from True rest)"
  by (cases l) (auto simp: search_inside_line split: option.splits)

lemma search_last_line: "nl \<notin> set l \<Longrightarrow> search_from True l = match_here l"
  by (cases l) (auto simp: search_inside_last match_here_def split: option.splits)

lemma match_here_other:
  assumes "\<not> hash_space_line l" and "sfx = [] \<or> (\<exists>r. sfx = nl # r)"
  shows "match_here (l @ sfx) = None"
proof (cases l)
  case Nil
  with assms(2) show ?thesis by (auto simp: match_here_def nl_def)
next
  case (Cons c r)
  show ?thesis
  proof (cases "c = CHR ''#''")
    case False
    with Cons show ?thesis by (simp add: match_here_def)
  next
    case True
    with Cons assms(1) obtain x r' where r: "r = x # r'" and x: "\<not> is_space x"
      by (cases r) (auto simp: hash_space_line_def)
    with Cons True show ?thesis by (simp add: match_here_def)
  qed
qed

lemma dot_plus_eol_line:
  assumes "nl \<notin> set g" and "g \<noteq> []" and "sfx = [] \<or> (\<exists>r. sfx = nl # r)"
  shows "dot_plus_eol (g @ sfx) = Some g"
proof -
  have "takeWhile (\<lambda>c. c \<noteq> nl) (g @ sfx) = g @ takeWhile (\<lambda>c. c \<noteq> nl) sfx"
    using assms(1) by (intro takeWhile_append2) auto
  moreover have "takeWhile (\<lambda>c. c \<noteq> nl) sfx = []"
    using assms(3) by auto
  ultimately have "takeWhile (\<lambda>c. c \<noteq> nl) (g @ sfx) = g" by simp
  with assms(2) show ?thesis by (simp add: dot_plus_eol_def)
qed

lemma match_here_heading:
  assumes "hash_space_line l" and "\<not> bare_hash l" and "nl \<notin> set l"
    and "sfx = [] \<or> (\<exists>r. sfx = nl # r)"
  shows "match_here (l @ sfx) = Some (dropWhile is_space (tl l))"
proof -
  from assms(1,2) obtain r where l: "l = CHR ''#'' # r" and nb: "\<not> list_all is_space r"
    by (cases l) (auto simp: hash_space_line_def bare_hash_def)
  define ws where "ws = takeWhile is_space r"
  define g where "g = dropWhile is_space r"
  have r: "r = ws @ g" by (simp add: ws_def g_def)
  from nb have g: "g \<noteq> []" by (simp add: g_def list_all_iff)
  then have hg: "\<not> is_space (hd g)" unfolding g_def by (metis hd_dropWhile)
  from assms(1) l nb have "is_space (hd r)" "r \<noteq> []"
    by (cases r; simp add: hash_space_line_def)+
  then have ws: "ws \<noteq> []" unfolding ws_def by (cases r) auto
  have tw: "takeWhile is_space (r @ sfx) = ws"
  proof -
    have "hd g \<in> set r" using g r by (cases g) auto
    then show ?thesis using hg by (simp add: ws_def takeWhile_append1)
  qed
  obtain j where j: "length ws = Suc j" using ws by (cases ws) auto
  have dr: "drop (Suc j) (r @ sfx) = g @ sfx"
    using j r by (metis append.assoc append_eq_conv_conj)
  have "nl \<notin> set g" using assms(3) l r by auto
  then have "dot_plus_eol (g @ sfx) = Some g"
    using g assms(4) by (rule dot_plus_eol_line)
  then have "spaces_then_group (Suc j) (r @ sfx) = Some g"
    using dr by simp
  then show ?thesis
    using l tw j by (simp add: match_here_def g_def)
qed

lemma search_lines_none:
  assumes "\<forall>l\<in>set ls. nl \<notin> set l" and "find hash_space_line ls = None"
  shows "search_from True (join [nl] ls) = None"
  using assms
proof (induction ls rule: induct_list012)
  case 1
  show ?case by simp
next
  case (2 l)
  then show ?case
    using match_here_other [of l "[]"] by (simp add: search_last_line split: if_splits)
next
  case (3 l l' ls)
  then show ?case
    using match_here_other [of l "nl # join [nl] (l' # ls)"]
    by (simp add: search_line_start split: if_splits)
qed

lemma search_lines_some:
  assumes "\<forall>l\<in>set ls. nl \<notin> set l" and "find hash_space_line ls = Some h"
    and "\<not> bare_hash h"
  shows "search_from True (join [nl] ls) = Some (dropWhile is_space (tl h))"
  using assms
proof (induction ls rule: induct_list012)
  case 1
  then show ?case by simp
next
  case (2 l)
  then show ?case
    using match_here_heading [of l "[]"] by (simp add: search_last_line split: if_splits)
next
  case (3 l l' ls)
  show ?case
  proof (cases "hash_space_line l")
    case True
    with 3 show ?thesis
      using match_here_heading [of l "nl # join [nl] (l' # ls)"]
      by (simp add: search_line_start)
  next
    case False
    with 3 show ?thesis
      using match_here_other [of l "nl # join [nl] (l' # ls)"]
      by (simp add: search_line_start)
  qed
qed

lemma strip_dropWhile: "strip (dropWhile is_space s) = strip s"
  by (simp add: strip_def)

lemma title_none:
  "find hash_space_line (split_nl content) = None \<Longrightarrow> extract_title content fb = fb"
  using search_lines_none [of "split_nl content"]
  by (simp add: extract_title_def title_match_def join_split_nl split_nl_no_nl)

lemma title_some:
  "find hash_space_line (split_nl content) = Some h \<Longrightarrow> \<not> bare_hash h \<Longrightarrow>
     extract_title content fb = strip (tl h)"
  using search_lines_some [of "split_nl content" h]
  by (simp add: extract_title_def title_match_def join_split_nl split_nl_no_nl strip_dropWhile)

lemma all_space_strip: "list_all is_space s \<Longrightarrow> strip s = []"
proof -
  assume "list_all is_space s"
  then have d: "dropWhile is_space s = []" by (induction s) simp_all
  show ?thesis unfolding strip_def d by simp
qed

lemma find_skip:
  "\<forall>l\<in>set pre. \<not> P l \<Longrightarrow> P h \<Longrightarrow> find P (pre @ h # post) = Some h"
  by (induction pre) simp_all

lemma no_hash_not_heading_line: "\<not> startswith l CHR ''#'' \<Longrightarrow> \<not> hash_space_line l"
  by (cases l) (simp_all add: startswith_def hash_space_line_def)

text \<open>
  Claim C1, as stated, at the document of the lines "## Sub" and "# Main": the first
  line that matches "one or more hashes" is "## Sub", and the code returns "Main",
  since its pattern takes exactly one hash.
\<close>

theorem title_double_hash_counterexample:
  "extract_title (''## Sub'' @ [nl] @ ''# Main'') ''fb'' = ''Main''
   \<and> spec_title (''## Sub'' @ [nl] @ ''# Main'') ''fb'' = ''Sub''"
  by (simp add: extract_title_def title_match_def match_here_def dot_plus_eol_def
      spec_title_def spec_heading_text_def List.map_filter_def
      nl_def strip_def is_space_def)

text \<open>
  Claim C1, amended. Take the first line that starts with exactly one hash followed by
  a whitespace character or by nothing. When there is none, the title is the fallback.
  When it carries a character that is not whitespace after the hash, the title is the
  text after the hash, trimmed. (A first such line with only whitespace after the hash
  is left out: there the whitespace run of the pattern crosses the line feed.)
\<close>

theorem title_first_h1_line:
  "(case find hash_space_line (split_nl content) of
      None \<Rightarrow> extract_title content fallback = fallback
    | Some h \<Rightarrow> (\<not> bare_hash h \<longrightarrow> extract_title content fallback = strip (tl h)))"
  by (simp add: title_none title_some split: option.split)

text \<open>
  The theorem of C1 at a document with a heading of level two before the title, and at
  a document without heading.
\<close>

theorem title_first_h1_line_witness:
  "find hash_space_line (split_nl (''## Sub'' @ [nl] @ ''# Main'')) = Some ''# Main''
   \<and> \<not> bare_hash ''# Main''
   \<and> extract_title (''## Sub'' @ [nl] @ ''# Main'') ''fb'' = ''Main''
   \<and> find hash_space_line (split_nl ''no heading'') = None
   \<and> extract_title ''no heading'' ''fb'' = ''fb''"
proof -
  have f: "find hash_space_line (split_nl (''## Sub'' @ [nl] @ ''# Main'')) = Some ''# Main''"
    by (simp add: nl_def hash_space_line_def is_space_def)
  have b: "\<not> bare_hash ''# Main''"
    by (simp add: bare_hash_def is_space_def)
  have s: "strip (tl ''# Main'') = ''Main''"
    by (simp add: strip_def is_space_def)
  have n: "find hash_space_line (split_nl ''no heading'') = None"
    by (simp add: nl_def hash_space_line_def)
  show ?thesis
    using title_first_h1_line [of "''## Sub'' @ [nl] @ ''# Main''" "''fb''"]
      title_first_h1_line [of "''no heading''" "''fb''"] f b s n
    by simp
qed

text \<open>
  Claim C8. At the document of the lines "#" and "# Title" the claim fails: the document
  contains the line "# Title", which is its first line of one hash, whitespace and text,
  and the title is "# Title", whatever the fallback; the whitespace run of the pattern
  has taken the line feed after the lone hash. Away from that case the claim holds: when
  the first line that starts with one hash followed by whitespace or by nothing is a
  hash, a whitespace character and a text with a character that is not whitespace, the
  title is that text, trimmed, whatever the fallback and whatever headings of a deeper
  level come before; and when no line starts with a hash, the title is the fallback.
\<close>

theorem title_of_first_hash_line:
  "''# Title'' \<in> set (split_nl (''#'' @ [nl] @ ''# Title''))
   \<and> extract_title (''#'' @ [nl] @ ''# Title'') fallback = ''# Title''
   \<and> (split_nl content = pre @ (CHR ''#'' # w # t) # post \<and> is_space w
        \<and> (\<forall>l\<in>set pre. \<not> hash_space_line l) \<and> strip t \<noteq> []
      \<longrightarrow> extract_title content fallback = strip t)
   \<and> ((\<forall>l\<in>set (split_nl content). \<not> startswith l CHR ''#'')
      \<longrightarrow> extract_title content fallback = fallback)"
proof (intro conjI impI)
  show "''# Title'' \<in> set (split_nl (''#'' @ [nl] @ ''# Title''))"
    by (simp add: nl_def)
next
  show "extract_title (''#'' @ [nl] @ ''# Title'') fallback = ''# Title''"
    by (simp add: extract_title_def title_match_def match_here_def dot_plus_eol_def
        nl_def strip_def is_space_def)
next
  assume a: "split_nl content = pre @ (CHR ''#'' # w # t) # post \<and> is_space w
        \<and> (\<forall>l\<in>set pre. \<not> hash_space_line l) \<and> strip t \<noteq> []"
  have h: "hash_space_line (CHR ''#'' # w # t)"
    using a by (simp add: hash_space_line_def)
  have "\<not> list_all is_space t"
    using a all_space_strip by blast
  then have nb: "\<not> bare_hash (CHR ''#'' # w # t)"
    by (simp add: bare_hash_def)
  have "find hash_space_line (split_nl content) = Some (CHR ''#'' # w # t)"
    using a h by (simp add: find_skip)
  then have "extract_title content fallback = strip (tl (CHR ''#'' # w # t))"
    using nb by (rule title_some)
  also have "\<dots> = strip t"
    using a by (simp add: strip_def)
  finally show "extract_title content fallback = strip t" .
next
  assume "\<forall>l\<in>set (split_nl content). \<not> startswith l CHR ''#''"
  then have "find hash_space_line (split_nl content) = None"
    by (simp add: find_None_iff no_hash_not_heading_line)
  then show "extract_title content fallback = fallback"
    by (rule title_none)
qed

text \<open>
  The theorem of C8 at a document with a heading of level two before the title, and at
  a document without heading.
\<close>

theorem title_of_first_hash_line_witness:
  "split_nl (''## Intro'' @ [nl] @ ''# Title'')
     = [''## Intro''] @ (CHR ''#'' # CHR '' '' # ''Title'') # []
   \<and> is_space CHR '' '' \<and> \<not> hash_space_line ''## Intro''
   \<and> strip ''Title'' = ''Title''
   \<and> extract_title (''## Intro'' @ [nl] @ ''# Title'') ''fb'' = ''Title''
   \<and> split_nl (''plain'' @ [nl] @ ''text'') = [''plain'', ''text'']
   \<and> extract_title (''plain'' @ [nl] @ ''text'') ''fb'' = ''fb''"
proof -
  have s: "split_nl (''## Intro'' @ [nl] @ ''# Title'')
     = [''## Intro''] @ (CHR ''#'' # CHR '' '' # ''Title'') # []"
    by (simp add: nl_def)
  have w: "is_space CHR '' ''"
    by (simp add: is_space_def)
  have p: "\<not> hash_space_line ''## Intro''"
    by (simp add: hash_space_line_def is_space_def)
  have t: "strip ''Title'' = ''Title''"
    by (simp add: strip_def is_space_def)
  have q: "split_nl (''plain'' @ [nl] @ ''text'') = [''plain'', ''text'']"
    by (simp add: nl_def)
  have n: "\<forall>l\<in>set [''plain'', ''text'']. \<not> startswith l CHR ''#''"
    by (simp add: startswith_def)
  have one: "extract_title (''## Intro'' @ [nl] @ ''# Title'') ''fb'' = ''Title''"
    using title_of_first_hash_line
        [of "''fb''" "''## Intro'' @ [nl] @ ''# Title''" "[''## Intro'']" "CHR '' ''"
          "''Title''" "[]"]
      s w p t
    by simp
  have two: "extract_title (''plain'' @ [nl] @ ''text'') ''fb'' = ''fb''"
    using title_of_first_hash_line [of "''fb''" "''plain'' @ [nl] @ ''text''"] q n
    by simp
  show ?thesis using s w p t q one two by blast
qed

subsection \<open>The folder scanner and the run\<close>

lemma scan_items_folders:
  "scan_items items acc = Inr es \<Longrightarrow>
     map folder es = map folder acc @ map fst (filter qualifying items)"
proof (induction items arbitrary: acc)
  case Nil
  then show ?case by simp
next
  case (Cons p items)
  obtain name item where p: "p = (name, item)" by (cases p)
  show ?case
    using Cons.prems Cons.IH p
    by (auto simp: qualifying_def split: if_splits option.splits sum.splits)
qed

lemma distinct_map_insort_key:
  "distinct (map f (insort_key f x xs)) \<longleftrightarrow> f x \<notin> f ` set xs \<and> distinct (map f xs)"
  by (induction xs) (auto simp: set_insort_key)

lemma distinct_map_sort_key: "distinct (map f (sort_key f xs)) = distinct (map f xs)"
  by (induction xs) (simp_all add: distinct_map_insort_key)

lemma strict_sorted_listing:
  assumes "distinct (map fst children)"
  shows "sorted_wrt (<) (map fst (filter P (sort_key fst children)))"
proof -
  have "sorted_wrt (<) (map fst (sort_key fst children))"
    using assms by (simp add: strict_sorted_iff distinct_map_sort_key)
  then have "sorted_wrt (\<lambda>p q. fst p < fst q) (sort_key fst children)"
    by (simp add: sorted_wrt_map)
  then have "sorted_wrt (\<lambda>p q. fst p < fst q) (filter P (sort_key fst children))"
    by (rule sorted_wrt_filter)
  then show ?thesis by (simp add: sorted_wrt_map)
qed

text \<open>
  Claim C5. When the scanner returns, the folders of its entries are exactly the names of
  the children of the root that are directories and do not start with a dot, in strictly
  ascending order; the folders b, a, c come out as a, b, c.
\<close>

theorem scanner_lists_sorted_visible_directories:
  "(get_subfolders (Some (Dir children)) = Inr entries \<and> distinct (map fst children)
    \<longrightarrow> set (map folder entries)
          = {name. \<exists>item. (name, item) \<in> set children \<and> is_dir item
                      \<and> \<not> startswith name CHR ''.''}
        \<and> sorted_wrt (<) (map folder entries))
   \<and> get_subfolders site_abc = Inr [bare_entry ''a'', bare_entry ''b'', bare_entry ''c'']"
proof (intro conjI impI)
  assume a: "get_subfolders (Some (Dir children)) = Inr entries \<and> distinct (map fst children)"
  then have "scan_items (sort_key fst children) [] = Inr entries"
    by (simp add: get_subfolders_def)
  then have f: "map folder entries = map fst (filter qualifying (sort_key fst children))"
    using scan_items_folders by fastforce
  show "set (map folder entries)
          = {name. \<exists>item. (name, item) \<in> set children \<and> is_dir item
                      \<and> \<not> startswith name CHR ''.''}"
    unfolding f by (force simp: qualifying_def)
  show "sorted_wrt (<) (map folder entries)"
    unfolding f using a by (simp add: strict_sorted_listing)
next
  show "get_subfolders site_abc = Inr [bare_entry ''a'', bare_entry ''b'', bare_entry ''c'']"
    by (simp add: site_abc_def get_subfolders_def bare_entry_def md_names_def startswith_def)
qed

text \<open>
  The theorem of C5 at a root with two folders, a hidden directory and a file.
\<close>

theorem scanner_lists_sorted_visible_directories_witness:
  "get_subfolders site_mixed
     = Inr [\<lparr>folder = ''blog'', title = ''Blog'', description = []\<rparr>,
            \<lparr>folder = ''notes'', title = ''Notes'', description = []\<rparr>]
   \<and> sorted_wrt (<) [''blog'', ''notes'']
   \<and> set [''blog'', ''notes'']
       = {name. \<exists>item. (name, item) \<in> set (dir_children (the site_mixed)) \<and> is_dir item
                      \<and> \<not> startswith name CHR ''.''}"
proof -
  have g: "get_subfolders site_mixed
     = Inr [\<lparr>folder = ''blog'', title = ''Blog'', description = []\<rparr>,
            \<lparr>folder = ''notes'', title = ''Notes'', description = []\<rparr>]"
    by (simp add: site_mixed_def get_subfolders_def md_names_def startswith_def
        parse_markdown_def parse_content_def extract_title_def title_match_def match_here_def
        dot_plus_eol_def extract_description_def nl_def strip_def is_space_def)
  have d: "distinct (map fst (dir_children (the site_mixed)))"
    by (simp add: site_mixed_def)
  have s: "site_mixed = Some (Dir (dir_children (the site_mixed)))"
    by (simp add: site_mixed_def)
  show ?thesis
    using scanner_lists_sorted_visible_directories
        [of "dir_children (the site_mixed)"
          "[\<lparr>folder = ''blog'', title = ''Blog'', description = []\<rparr>,
            \<lparr>folder = ''notes'', title = ''Notes'', description = []\<rparr>]"]
      g d s
    by simp
qed

lemma find_md_selected: "find_md_file sub md_names = selected sub"
  by (simp add: md_names_def selected_def split: option.splits)

lemma scan_items_keeps: "scan_items items acc = Inr es \<Longrightarrow> set acc \<subseteq> set es"
proof (induction items arbitrary: acc)
  case Nil
  then show ?case by simp
next
  case (Cons p items)
  obtain name item where p: "p = (name, item)" by (cases p)
  show ?case
    using Cons.prems Cons.IH p
    by (fastforce split: if_splits option.splits sum.splits)
qed

lemma scan_items_entry:
  assumes "scan_items items acc = Inr es" and "(name, Dir sub) \<in> set items"
    and "\<not> startswith name CHR ''.''"
  shows "\<exists>e\<in>set es. folder e = name \<and>
           (case find_md_file sub md_names of
              None \<Rightarrow> title e = name \<and> description e = []
            | Some md \<Rightarrow> parse_markdown md name = Inr (title e, description e))"
  using assms
proof (induction items arbitrary: acc)
  case Nil
  then show ?case by simp
next
  case (Cons p items)
  obtain n item where p: "p = (n, item)" by (cases p)
  show ?case
  proof (cases "p = (name, Dir sub)")
    case False
    then have "(name, Dir sub) \<in> set items" using Cons.prems(2) by simp
    moreover obtain acc' where "scan_items items acc' = Inr es"
      using Cons.prems(1) p
      by (auto split: if_splits option.splits sum.splits)
    ultimately show ?thesis using Cons.IH Cons.prems(3) by blast
  next
    case True
    show ?thesis
    proof (cases "find_md_file sub md_names")
      case None
      then have "scan_items items (acc @ [\<lparr>folder = name, title = name, description = []\<rparr>]) = Inr es"
        using Cons.prems(1,3) True by simp
      then have "\<lparr>folder = name, title = name, description = []\<rparr> \<in> set es"
        using scan_items_keeps by fastforce
      then show ?thesis using None by force
    next
      case (Some md)
      then obtain info where i: "parse_markdown md name = Inr info"
        and "scan_items items (acc @ [\<lparr>folder = name, title = fst info, description = snd info\<rparr>]) = Inr es"
        using Cons.prems(1,3) True by (auto split: sum.splits)
      then have "\<lparr>folder = name, title = fst info, description = snd info\<rparr> \<in> set es"
        using scan_items_keeps by fastforce
      then show ?thesis using Some i by force
    qed
  qed
qed

lemma scan_items_bare:
  "\<forall>p\<in>set items. qualifying p \<longrightarrow> selected (dir_children (snd p)) = None \<Longrightarrow>
     scan_items items acc = Inr (acc @ map (\<lambda>p. bare_entry (fst p)) (filter qualifying items))"
proof (induction items arbitrary: acc)
  case Nil
  then show ?case by simp
next
  case (Cons p items)
  obtain name item where p: "p = (name, item)" by (cases p)
  show ?case
    using Cons.prems Cons.IH p
    by (simp add: qualifying_def find_md_selected bare_entry_def)
qed

text \<open>
  Claim C6. In the list that the scanner returns, a qualifying directory has an entry
  with its own name as folder, built from the first candidate present among
  \<open>README.md\<close>, \<open>description.md\<close>, \<open>index.md\<close>: the title and description that
  the extractor gives for its text, with the directory name as fallback; without any
  candidate the entry is the name and the empty description. When no qualifying
  directory has a candidate, the scanner returns these entries whatever the files hold:
  nothing is read.
\<close>

theorem scanner_selects_first_candidate:
  "(get_subfolders (Some (Dir children)) = Inr entries \<and> (name, Dir sub) \<in> set children
      \<and> \<not> startswith name CHR ''.''
    \<longrightarrow> (\<exists>e\<in>set entries. folder e = name \<and>
           (case selected sub of
              None \<Rightarrow> title e = name \<and> description e = []
            | Some md \<Rightarrow>
                (\<exists>content. read_text md = Inr content
                   \<and> title e = extract_title content name
                   \<and> description e = extract_description content))))
   \<and> ((\<forall>p\<in>set children. qualifying p \<longrightarrow> selected (dir_children (snd p)) = None)
    \<longrightarrow> get_subfolders (Some (Dir children))
          = Inr (map (\<lambda>p. bare_entry (fst p)) (filter qualifying (sort_key fst children))))"
proof (intro conjI impI)
  assume a: "get_subfolders (Some (Dir children)) = Inr entries \<and> (name, Dir sub) \<in> set children
      \<and> \<not> startswith name CHR ''.''"
  then have "scan_items (sort_key fst children) [] = Inr entries"
    by (simp add: get_subfolders_def)
  moreover have "(name, Dir sub) \<in> set (sort_key fst children)"
    using a by simp
  ultimately obtain e where e: "e \<in> set entries" "folder e = name"
    and c: "(case find_md_file sub md_names of
              None \<Rightarrow> title e = name \<and> description e = []
            | Some md \<Rightarrow> parse_markdown md name = Inr (title e, description e))"
    using a scan_items_entry by blast
  have "(case selected sub of
              None \<Rightarrow> title e = name \<and> description e = []
            | Some md \<Rightarrow>
                (\<exists>content. read_text md = Inr content
                   \<and> title e = extract_title content name
                   \<and> description e = extract_description content))"
    using c
    by (auto simp: find_md_selected parse_markdown_def parse_content_def
        split: option.splits sum.splits)
  with e show "\<exists>e\<in>set entries. folder e = name \<and>
           (case selected sub of
              None \<Rightarrow> title e = name \<and> description e = []
            | Some md \<Rightarrow>
                (\<exists>content. read_text md = Inr content
                   \<and> title e = extract_title content name
                   \<and> description e = extract_description content))"
    by blast
next
  assume "\<forall>p\<in>set children. qualifying p \<longrightarrow> selected (dir_children (snd p)) = None"
  then have "\<forall>p\<in>set (sort_key fst children). qualifying p \<longrightarrow> selected (dir_children (snd p)) = None"
    by simp
  then show "get_subfolders (Some (Dir children))
          = Inr (map (\<lambda>p. bare_entry (fst p)) (filter qualifying (sort_key fst children)))"
    using scan_items_bare [of "sort_key fst children" "[]"] by (simp add: get_subfolders_def)
qed

text \<open>
  The theorem of C6 at a root where a folder has \<open>description.md\<close> and \<open>index.md\<close>,
  and at the root of three empty folders.
\<close>

theorem scanner_selects_first_candidate_witness:
  "get_subfolders site_mixed
     = Inr [\<lparr>folder = ''blog'', title = ''Blog'', description = []\<rparr>,
            \<lparr>folder = ''notes'', title = ''Notes'', description = []\<rparr>]
   \<and> selected [(''description.md'', File (Some ''# Blog'')), (''index.md'', File None)]
       = Some (File (Some ''# Blog''))
   \<and> (\<exists>e\<in>set [\<lparr>folder = ''blog'', title = ''Blog'', description = []\<rparr>,
            \<lparr>folder = ''notes'', title = ''Notes'', description = []\<rparr>].
         folder e = ''blog'' \<and> title e = extract_title ''# Blog'' ''blog''
         \<and> description e = extract_description ''# Blog'')
   \<and> get_subfolders site_abc = Inr [bare_entry ''a'', bare_entry ''b'', bare_entry ''c'']"
proof -
  have g: "get_subfolders site_mixed
     = Inr [\<lparr>folder = ''blog'', title = ''Blog'', description = []\<rparr>,
            \<lparr>folder = ''notes'', title = ''Notes'', description = []\<rparr>]"
    by (simp add: site_mixed_def get_subfolders_def md_names_def startswith_def
        parse_markdown_def parse_content_def extract_title_def title_match_def match_here_def
        dot_plus_eol_def extract_description_def nl_def strip_def is_space_def)
  have s: "site_mixed = Some (Dir (dir_children (the site_mixed)))"
    by (simp add: site_mixed_def)
  have m: "(''blog'', Dir [(''description.md'', File (Some ''# Blog'')), (''index.md'', File None)])
             \<in> set (dir_children (the site_mixed))"
    by (simp add: site_mixed_def)
  have h: "\<not> startswith ''blog'' CHR ''.''"
    by (simp add: startswith_def)
  have sel: "selected [(''description.md'', File (Some ''# Blog'')), (''index.md'', File None)]
       = Some (File (Some ''# Blog''))"
    by (simp add: selected_def)
  have q: "\<forall>p\<in>set (dir_children (the site_abc)).
             qualifying p \<longrightarrow> selected (dir_children (snd p)) = None"
    by (simp add: site_abc_def selected_def)
  have a: "site_abc = Some (Dir (dir_children (the site_abc)))"
    by (simp add: site_abc_def)
  have k: "map (\<lambda>p. bare_entry (fst p)) (filter qualifying (sort_key fst (dir_children (the site_abc))))
            = [bare_entry ''a'', bare_entry ''b'', bare_entry ''c'']"
    by (simp add: site_abc_def qualifying_def startswith_def)
  have one: "\<exists>e\<in>set [\<lparr>folder = ''blog'', title = ''Blog'', description = []\<rparr>,
            \<lparr>folder = ''notes'', title = ''Notes'', description = []\<rparr>].
         folder e = ''blog'' \<and> title e = extract_title ''# Blog'' ''blog''
         \<and> description e = extract_description ''# Blog''"
    using scanner_selects_first_candidate
        [of "dir_children (the site_mixed)"
          "[\<lparr>folder = ''blog'', title = ''Blog'', description = []\<rparr>,
            \<lparr>folder = ''notes'', title = ''Notes'', description = []\<rparr>]"
          "''blog''" "[(''description.md'', File (Some ''# Blog'')), (''index.md'', File None)]"]
      g s m h sel
    by simp
  have two: "get_subfolders site_abc = Inr [bare_entry ''a'', bare_entry ''b'', bare_entry ''c'']"
    using scanner_selects_first_candidate [of "dir_children (the site_abc)"] q a k
    by simp
  show ?thesis using g sel one two by blast
qed

lemma scan_items_fails:
  assumes "(name, Dir sub) \<in> set items" and "\<not> startswith name CHR ''.''"
    and "find_md_file sub md_names = Some md" and "read_text md = Inl e"
  shows "\<exists>e'. scan_items items acc = Inl e'"
  using assms(1)
proof (induction items arbitrary: acc)
  case Nil
  then show ?case by simp
next
  case (Cons p items)
  obtain n item where p: "p = (n, item)" by (cases p)
  show ?case
  proof (cases "p = (name, Dir sub)")
    case True
    then show ?thesis
      using assms(2,3,4) by (simp add: parse_markdown_def)
  next
    case False
    then have "\<And>acc'. \<exists>e'. scan_items items acc' = Inl e'"
      using Cons by simp
    then show ?thesis
      using p by (auto split: option.splits sum.splits)
  qed
qed

text \<open>
  Claim C9. When the summary file selected in some qualifying directory cannot be read,
  the run ends with an error and \<open>site\<close> is as before. In every run, either an error
  ends it and nothing is written, or the scan has returned its entries and
  \<open>site/index.html\<close> holds the page rendered from all of them.
\<close>

theorem unreadable_summary_aborts:
  "((name, Dir sub) \<in> set children \<and> \<not> startswith name CHR ''.''
      \<and> selected sub = Some md \<and> read_text md = Inl e
    \<longrightarrow> (\<exists>e'. main (Some (Dir children)) = (Inl e', Some (Dir children))))
   \<and> (case main site of
         (Inl e', site') \<Rightarrow> site' = site
       | (Inr msg, site') \<Rightarrow>
           (\<exists>children entries. site = Some (Dir children)
              \<and> get_subfolders site = Inr entries
              \<and> site' = Some (Dir (AList.update ''index.html''
                                     (File (Some (generate_html entries))) children))))"
proof (intro conjI impI)
  assume a: "(name, Dir sub) \<in> set children \<and> \<not> startswith name CHR ''.''
      \<and> selected sub = Some md \<and> read_text md = Inl e"
  then have "(name, Dir sub) \<in> set (sort_key fst children)" by simp
  then obtain e' where "scan_items (sort_key fst children) [] = Inl e'"
    using a scan_items_fails [of name sub "sort_key fst children" md e "[]"]
    by (auto simp: find_md_selected)
  then have "main (Some (Dir children)) = (Inl e', Some (Dir children))"
    by (simp add: main_def get_subfolders_def)
  then show "\<exists>e'. main (Some (Dir children)) = (Inl e', Some (Dir children))" by blast
next
  show "case main site of
         (Inl e', site') \<Rightarrow> site' = site
       | (Inr msg, site') \<Rightarrow>
           (\<exists>children entries. site = Some (Dir children)
              \<and> get_subfolders site = Inr entries
              \<and> site' = Some (Dir (AList.update ''index.html''
                                     (File (Some (generate_html entries))) children)))"
    by (auto simp: main_def write_index_def
        split: sum.splits option.splits node.splits prod.splits)
qed

text \<open>
  The theorem of C9 at a root where the \<open>README.md\<close> of the second folder does not
  decode.
\<close>

theorem unreadable_summary_aborts_witness:
  "read_text (File None) = Inl UnicodeDecodeError
   \<and> main site_undecodable = (Inl UnicodeDecodeError, site_undecodable)"
proof -
  have m: "(''b'', Dir [(''README.md'', File None)]) \<in> set (dir_children (the site_undecodable))
      \<and> \<not> startswith ''b'' CHR ''.''
      \<and> selected [(''README.md'', File None)] = Some (File None)
      \<and> read_text (File None) = Inl UnicodeDecodeError"
    by (simp add: site_undecodable_def startswith_def selected_def)
  have s: "site_undecodable = Some (Dir (dir_children (the site_undecodable)))"
    by (simp add: site_undecodable_def)
  have "\<exists>e'. main site_undecodable = (Inl e', site_undecodable)"
    using unreadable_summary_aborts
        [of "''b''" "[(''README.md'', File None)]" "dir_children (the site_undecodable)"
          "File None" UnicodeDecodeError]
      m s
    by simp
  moreover have "fst (main site_undecodable) = Inl UnicodeDecodeError"
    by (simp add: site_undecodable_def main_def get_subfolders_def md_names_def
        parse_markdown_def startswith_def)
  ultimately show ?thesis using m by auto
qed

subsection \<open>The page renderer\<close>

lemma entries_loop_concat:
  "entries_loop acc es = acc @ concat (map entry_html es)"
  by (induction es arbitrary: acc) simp_all

lemma generate_html_shape:
  \<open>generate_html entries =
     unlines page_head_lines
     @ (if entries = [] then ''<li class="empty">No content yet.</li>''
        else concat (map entry_html entries))
     @ [nl] @ unlines page_tail_lines\<close>
  by (simp add: generate_html_def Let_def entries_loop_concat)

lemma sublist_link: \<open>sublist (''<a href="'' @ folder e @ ''/index.html">'') (entry_html e)\<close>
proof -
  have \<open>entry_html e =
      ([nl] @ ''        <li class="entry">'' @ [nl] @ ''            '')
      @ (''<a href="'' @ folder e @ ''/index.html">'')
      @ ([nl] @ ''                <h2>'' @ title e @ ''</h2>'' @ [nl]
         @ ''                '' @ desc_html e @ [nl]
         @ ''            </a>'' @ [nl] @ ''        </li>'' @ [nl])\<close>
    by (simp add: entry_html_def)
  then show ?thesis by (simp only: sublist_appendI)
qed

lemma sublist_heading: \<open>sublist (''<h2>'' @ title e @ ''</h2>'') (entry_html e)\<close>
proof -
  have \<open>entry_html e =
      ([nl] @ ''        <li class="entry">'' @ [nl]
       @ ''            <a href="'' @ folder e @ ''/index.html">'' @ [nl] @ ''                '')
      @ (''<h2>'' @ title e @ ''</h2>'')
      @ ([nl] @ ''                '' @ desc_html e @ [nl]
         @ ''            </a>'' @ [nl] @ ''        </li>'' @ [nl])\<close>
    by (simp add: entry_html_def)
  then show ?thesis by (simp only: sublist_appendI)
qed

lemma sublist_paragraph:
  assumes "description e \<noteq> []"
  shows \<open>sublist (''<p class="description">'' @ description e @ ''</p>'') (entry_html e)\<close>
proof -
  have \<open>entry_html e =
      ([nl] @ ''        <li class="entry">'' @ [nl]
       @ ''            <a href="'' @ folder e @ ''/index.html">'' @ [nl]
       @ ''                <h2>'' @ title e @ ''</h2>'' @ [nl] @ ''                '')
      @ (''<p class="description">'' @ description e @ ''</p>'')
      @ ([nl] @ ''            </a>'' @ [nl] @ ''        </li>'' @ [nl])\<close>
    using assms by (simp add: entry_html_def desc_html_def)
  then show ?thesis by (simp only: sublist_appendI)
qed

lemma sublist_in_page:
  "sublist x (entry_html e) \<Longrightarrow> sublist x (generate_html [e])"
proof -
  assume "sublist x (entry_html e)"
  then obtain ps ss where "entry_html e = ps @ x @ ss" by (auto simp: sublist_def)
  then have "generate_html [e] = (unlines page_head_lines @ ps) @ x @ (ss @ [nl] @ unlines page_tail_lines)"
    by (simp add: generate_html_shape)
  then show ?thesis by (simp only: sublist_appendI)
qed

lemma sublist_chain: "sublist x y \<Longrightarrow> sublist y z \<Longrightarrow> sublist x z"
  by (rule sublist_order.order.trans)

text \<open>
  Claim C7. The page is the fixed head, one list item per entry in order (the
  placeholder item when there is none) and the fixed tail. The item of an entry
  contains the link to its folder's \<open>index.html\<close> and the heading with its title, and
  the description paragraph when the description is not empty; with an empty
  description the item is the text shown, without paragraph. The fields stand in the
  text as they are, whatever characters they hold. The entry proj1 of the specification
  yields a page with the three pieces of text it names.
\<close>

theorem renderer_emits_items:
  \<open>generate_html entries =
     unlines page_head_lines
     @ (if entries = [] then ''<li class="empty">No content yet.</li>''
        else concat (map entry_html entries))
     @ [nl] @ unlines page_tail_lines
   \<and> sublist (''<a href="'' @ folder e @ ''/index.html">'') (entry_html e)
   \<and> sublist (''<h2>'' @ title e @ ''</h2>'') (entry_html e)
   \<and> (description e \<noteq> []
      \<longrightarrow> sublist (''<p class="description">'' @ description e @ ''</p>'') (entry_html e))
   \<and> (description e = []
      \<longrightarrow> entry_html e =
            [nl] @ ''        <li class="entry">'' @ [nl]
            @ ''            <a href="'' @ folder e @ ''/index.html">'' @ [nl]
            @ ''                <h2>'' @ title e @ ''</h2>'' @ [nl]
            @ ''                '' @ [nl]
            @ ''            </a>'' @ [nl]
            @ ''        </li>'' @ [nl])
   \<and> sublist ''href="proj1/index.html"'' (generate_html [entry_proj1])
   \<and> sublist ''<h2>Proj One</h2>'' (generate_html [entry_proj1])
   \<and> sublist ''<p class="description">A demo.</p>'' (generate_html [entry_proj1])\<close>
proof (intro conjI impI)
  show \<open>generate_html entries =
     unlines page_head_lines
     @ (if entries = [] then ''<li class="empty">No content yet.</li>''
        else concat (map entry_html entries))
     @ [nl] @ unlines page_tail_lines\<close>
    by (rule generate_html_shape)
next
  show \<open>sublist (''<a href="'' @ folder e @ ''/index.html">'') (entry_html e)\<close>
    by (rule sublist_link)
next
  show \<open>sublist (''<h2>'' @ title e @ ''</h2>'') (entry_html e)\<close>
    by (rule sublist_heading)
next
  assume "description e \<noteq> []"
  then show \<open>sublist (''<p class="description">'' @ description e @ ''</p>'') (entry_html e)\<close>
    by (rule sublist_paragraph)
next
  assume "description e = []"
  then show \<open>entry_html e =
            [nl] @ ''        <li class="entry">'' @ [nl]
            @ ''            <a href="'' @ folder e @ ''/index.html">'' @ [nl]
            @ ''                <h2>'' @ title e @ ''</h2>'' @ [nl]
            @ ''                '' @ [nl]
            @ ''            </a>'' @ [nl]
            @ ''        </li>'' @ [nl]\<close>
    by (simp add: entry_html_def desc_html_def)
next
  have \<open>''<a href="'' @ folder entry_proj1 @ ''/index.html">''
          = ''<a '' @ ''href="proj1/index.html"'' @ ''>''\<close>
    by (simp add: entry_proj1_def)
  then have \<open>sublist ''href="proj1/index.html"''
          (''<a href="'' @ folder entry_proj1 @ ''/index.html">'')\<close>
    by (simp only: sublist_appendI)
  then show \<open>sublist ''href="proj1/index.html"'' (generate_html [entry_proj1])\<close>
    using sublist_link sublist_in_page sublist_chain by blast
next
  have \<open>sublist (''<h2>'' @ title entry_proj1 @ ''</h2>'') (generate_html [entry_proj1])\<close>
    using sublist_heading sublist_in_page by blast
  then show \<open>sublist ''<h2>Proj One</h2>'' (generate_html [entry_proj1])\<close>
    by (simp add: entry_proj1_def)
next
  have "description entry_proj1 \<noteq> []" by (simp add: entry_proj1_def)
  then have \<open>sublist (''<p class="description">'' @ description entry_proj1 @ ''</p>'')
          (generate_html [entry_proj1])\<close>
    using sublist_paragraph sublist_in_page by blast
  then show \<open>sublist ''<p class="description">A demo.</p>'' (generate_html [entry_proj1])\<close>
    by (simp add: entry_proj1_def)
qed

text \<open>
  The theorem of C7 at the entry proj1 and at an entry with markup in its title and no
  description.
\<close>

theorem renderer_emits_items_witness:
  \<open>sublist ''<p class="description">A demo.</p>'' (entry_html entry_proj1)
   \<and> entry_html \<lparr>folder = ''docs'', title = ''<b>Docs</b>'', description = []\<rparr> =
        [nl] @ ''        <li class="entry">'' @ [nl]
        @ ''            <a href="docs/index.html">'' @ [nl]
        @ ''                <h2><b>Docs</b></h2>'' @ [nl]
        @ ''                '' @ [nl]
        @ ''            </a>'' @ [nl]
        @ ''        </li>'' @ [nl]\<close>
proof -
  have d: "description entry_proj1 \<noteq> []" by (simp add: entry_proj1_def)
  have one: \<open>sublist ''<p class="description">A demo.</p>'' (entry_html entry_proj1)\<close>
    using renderer_emits_items [of "[]" entry_proj1] d by (simp add: entry_proj1_def)
  have two: \<open>entry_html \<lparr>folder = ''docs'', title = ''<b>Docs</b>'', description = []\<rparr> =
        [nl] @ ''        <li class="entry">'' @ [nl]
        @ ''            <a href="docs/index.html">'' @ [nl]
        @ ''                <h2><b>Docs</b></h2>'' @ [nl]
        @ ''                '' @ [nl]
        @ ''            </a>'' @ [nl]
        @ ''        </li>'' @ [nl]\<close>
    using renderer_emits_items
        [of "[]" "\<lparr>folder = ''docs'', title = ''<b>Docs</b>'', description = []\<rparr>"]
    by simp
  show ?thesis using one two by blast
qed

subsection \<open>The run on a malformed or missing root\<close>

text \<open>
  Claim C10. The candidate test is \<open>exists\<close> only: in a folder that holds a directory
  named \<open>README.md\<close> beside a readable \<open>description.md\<close>, the scanner selects the
  directory, reading it raises, and the run ends with that error and nothing written.
\<close>

theorem readme_directory_aborts:
  "find_md_file [(''README.md'', Dir []), (''description.md'', File (Some ''# Title''))] md_names
     = Some (Dir [])
   \<and> get_subfolders site_readme_dir = Inl IsADirectoryError
   \<and> main site_readme_dir = (Inl IsADirectoryError, site_readme_dir)"
  by (simp add: site_readme_dir_def get_subfolders_def main_def md_names_def
      parse_markdown_def startswith_def)

text \<open>
  Claim C4 at the state where \<open>site\<close> does not exist: the scanner returns the empty
  list and the renderer gives the placeholder page, and the run then fails when it writes
  \<open>site/index.html\<close> into the missing directory; no page is written. Where \<open>site\<close> is a
  regular file the scanner itself raises.
\<close>

theorem missing_root_write_fails:
  \<open>get_subfolders None = Inr []
   \<and> sublist ''<li class="empty">No content yet.</li>'' (generate_html [])
   \<and> write_index None (generate_html []) = Inl FileNotFoundError
   \<and> main None = (Inl FileNotFoundError, None)
   \<and> get_subfolders (Some (File (Some []))) = Inl NotADirectoryError\<close>
proof (intro conjI)
  show "get_subfolders None = Inr []"
    by (simp add: get_subfolders_def)
  have \<open>generate_html [] =
      unlines page_head_lines @ ''<li class="empty">No content yet.</li>''
      @ ([nl] @ unlines page_tail_lines)\<close>
    by (simp add: generate_html_shape)
  then show \<open>sublist ''<li class="empty">No content yet.</li>'' (generate_html [])\<close>
    by (simp only: sublist_appendI)
  show "write_index None (generate_html []) = Inl FileNotFoundError"
    by (simp add: write_index_def)
  show "main None = (Inl FileNotFoundError, None)"
    by (simp add: get_subfolders_def main_def write_index_def)
  show "get_subfolders (Some (File (Some []))) = Inl NotADirectoryError"
    by (simp add: get_subfolders_def)
qed

end
